theory Spec2Isabelle
  imports Complex_Main "HOL-Library.AList" "HOL-Library.Sublist"
begin

section \<open>Data model\<close>

text \<open>
  The helper libraries \<^verbatim>\<open>data_cleaning.py\<close> and \<^verbatim>\<open>data_transformations.py\<close> work on
  three kinds of data: numeric sequences, strings, and lists of records (Python dicts
  from field names to heterogeneous values).

  \<^item> Numbers are modelled as \<^typ>\<open>real\<close>: the arithmetic of the source (\<^verbatim>\<open>sum\<close>,
    \<^verbatim>\<open>/\<close>, \<^verbatim>\<open>** 2\<close>, \<^verbatim>\<open>** 0.5\<close>) is read as exact arithmetic; the rounding of
    binary floating point is not part of the model.
  \<^item> A string is a \<^typ>\<open>string\<close>, a list of 8-bit characters; the character classes of
    Python (\<^verbatim>\<open>\d\<close>, \<^verbatim>\<open>str.isspace\<close>) are written out for that range.
  \<^item> A record value is \<^verbatim>\<open>None\<close>, a number or a string. Python compares and hashes
    \<^verbatim>\<open>bool\<close>, \<^verbatim>\<open>int\<close> and finite \<^verbatim>\<open>float\<close> values by their numeric value
    (\<^verbatim>\<open>1 == 1.0 == True\<close>), so a number is identified with its value.
  \<^item> A dict is an association list in insertion order, read with \<^const>\<open>map_of\<close> and
    updated in place with \<^const>\<open>AList.update\<close>.
\<close>

datatype py_error = IndexError | ZeroDivisionError

datatype pyval = PNone | PNum real | PStr string

type_synonym pyrecord = "(string \<times> pyval) list"

text \<open>\<^verbatim>\<open>record.get(key)\<close>: the value stored under the key, \<^verbatim>\<open>None\<close> when it is absent.\<close>

definition dict_get :: "pyrecord \<Rightarrow> string \<Rightarrow> pyval" where
  "dict_get record key = (case map_of record key of None \<Rightarrow> PNone | Some v \<Rightarrow> v)"

text \<open>\<^verbatim>\<open>key in record\<close>.\<close>

definition dict_contains :: "pyrecord \<Rightarrow> string \<Rightarrow> bool" where
  "dict_contains record key = (map_of record key \<noteq> None)"

text \<open>
  \<^verbatim>\<open>xs[i]\<close> for a Python list: a negative index counts from the end, an index out of
  range raises \<^verbatim>\<open>IndexError\<close>.
\<close>

definition py_index :: "'a list \<Rightarrow> int \<Rightarrow> py_error + 'a" where
  "py_index xs i =
     (if 0 \<le> i \<and> i < int (length xs) then Inr (xs ! nat i)
      else if i < 0 \<and> - int (length xs) \<le> i then Inr (xs ! nat (int (length xs) + i))
      else Inl IndexError)"

text \<open>\<^verbatim>\<open>a / b\<close> on numbers: a zero divisor raises \<^verbatim>\<open>ZeroDivisionError\<close>.\<close>

definition py_truediv :: "real \<Rightarrow> real \<Rightarrow> py_error + real" where
  "py_truediv a b = (if b = 0 then Inl ZeroDivisionError else Inr (a / b))"

section \<open>Filtering numeric data: \<^verbatim>\<open>filter_outliers\<close>\<close>

text \<open>
  \<^verbatim>\<open>
  def filter_outliers(data, method='iqr'):
      if not data:
          return []
      if method == 'iqr':
          sorted_data = sorted(data)
          n = len(sorted_data)
          q1 = sorted_data[n // 4]
          q3 = sorted_data[(3 * n) // 4]
          iqr = q3 - q1
          lower_bound = q1 - 1.5 * iqr
          upper_bound = q3 + 1.5 * iqr
          return [x for x in data if lower_bound <= x <= upper_bound]
      elif method == 'std':
          mean = sum(data) / len(data)
          variance = sum((x - mean) ** 2 for x in data) / len(data)
          std_dev = variance ** 0.5
          threshold = 3
          return [x for x in data if abs(x - mean) <= threshold * std_dev]
      return data
  \<close>
  The variance is a mean of squares, so \<^verbatim>\<open>variance ** 0.5\<close> is its square root.
\<close>

definition filter_outliers :: "real list \<Rightarrow> string \<Rightarrow> py_error + real list" where
  "filter_outliers data method =
     (if data = [] then Inr []
      else if method = ''iqr'' then
        (let sorted_data = sort data;
             n = int (length sorted_data)
         in case py_index sorted_data (n div 4) of
              Inl e \<Rightarrow> Inl e
            | Inr q1 \<Rightarrow>
               (case py_index sorted_data ((3 * n) div 4) of
                  Inl e \<Rightarrow> Inl e
                | Inr q3 \<Rightarrow>
                   (let iqr = q3 - q1;
                        lower_bound = q1 - 1.5 * iqr;
                        upper_bound = q3 + 1.5 * iqr
                    in Inr (filter (\<lambda>x. lower_bound \<le> x \<and> x \<le> upper_bound) data))))
      else if method = ''std'' then
        (case py_truediv (sum_list data) (real (length data)) of
           Inl e \<Rightarrow> Inl e
         | Inr mean \<Rightarrow>
            (case py_truediv (sum_list (map (\<lambda>x. (x - mean) ^ 2) data)) (real (length data)) of
               Inl e \<Rightarrow> Inl e
             | Inr variance \<Rightarrow>
                (let std_dev = sqrt variance;
                     threshold = 3
                 in Inr (filter (\<lambda>x. \<bar>x - mean\<bar> \<le> threshold * std_dev) data))))
      else Inr data)"

section \<open>Aggregation: \<^verbatim>\<open>calculate_statistics\<close>\<close>

text \<open>
  \<^verbatim>\<open>
  def calculate_statistics(numbers):
      if not numbers:
          return {"mean": 0, "median": 0, "std_dev": 0}
      sorted_nums = sorted(numbers)
      n = len(numbers)
      mean = sum(numbers) / n
      median = sorted_nums[n // 2] if n % 2 == 1 \
               else (sorted_nums[n // 2 - 1] + sorted_nums[n // 2]) / 2
      variance = sum((x - mean) ** 2 for x in numbers) / n
      std_dev = variance ** 0.5
      return {"mean": mean, "median": median, "std_dev": std_dev}
  \<close>
\<close>

record statistics =
  mean :: real
  median :: real
  std_dev :: real

definition calculate_statistics :: "real list \<Rightarrow> py_error + statistics" where
  "calculate_statistics numbers =
     (if numbers = [] then Inr \<lparr>mean = 0, median = 0, std_dev = 0\<rparr>
      else
        (let sorted_nums = sort numbers;
             n = int (length numbers)
         in case py_truediv (sum_list numbers) (real_of_int n) of
              Inl e \<Rightarrow> Inl e
            | Inr m \<Rightarrow>
               (case (if n mod 2 = 1 then py_index sorted_nums (n div 2)
                      else (case py_index sorted_nums (n div 2 - 1) of
                              Inl e \<Rightarrow> Inl e
                            | Inr a \<Rightarrow>
                               (case py_index sorted_nums (n div 2) of
                                  Inl e \<Rightarrow> Inl e
                                | Inr b \<Rightarrow> py_truediv (a + b) 2))) of
                  Inl e \<Rightarrow> Inl e
                | Inr med \<Rightarrow>
                   (case py_truediv (sum_list (map (\<lambda>x. (x - m) ^ 2) numbers)) (real_of_int n) of
                      Inl e \<Rightarrow> Inl e
                    | Inr variance \<Rightarrow>
                       Inr \<lparr>mean = m, median = med, std_dev = sqrt variance\<rparr>))))"

section \<open>Missing values: \<^verbatim>\<open>fill_missing_values\<close>\<close>

text \<open>
  \<^verbatim>\<open>
  def fill_missing_values(data, fill_value=None):
      if fill_value is None:
          valid_values = [x for x in data if x is not None]
          if not valid_values:
              return data
          fill_value = sum(valid_values) / len(valid_values)
      return [x if x is not None else fill_value for x in data]
  \<close>
  An entry of the list is \<^term>\<open>None\<close> or \<^term>\<open>Some x\<close>; so is the optional argument.
\<close>

definition valid_values_of :: "real option list \<Rightarrow> real list" where
  "valid_values_of data = map the (filter (\<lambda>x. x \<noteq> None) data)"

definition fill_with :: "real \<Rightarrow> real option list \<Rightarrow> real option list" where
  "fill_with fill_value data = map (\<lambda>x. if x \<noteq> None then x else Some fill_value) data"

definition fill_missing_values :: "real option list \<Rightarrow> real option \<Rightarrow> py_error + real option list" where
  "fill_missing_values data fill_value =
     (case fill_value of
        Some v \<Rightarrow> Inr (fill_with v data)
      | None \<Rightarrow>
         (let valid_values = valid_values_of data
          in if valid_values = [] then Inr data
             else (case py_truediv (sum_list valid_values) (real (length valid_values)) of
                     Inl e \<Rightarrow> Inl e
                   | Inr v \<Rightarrow> Inr (fill_with v data))))"

section \<open>String cleaning\<close>

text \<open>
  \<^verbatim>\<open>
  def standardize_phone_numbers(phone):
      digits = re.sub(r'\D', '', phone)
      if len(digits) == 10:
          return f"({digits[:3]}) {digits[3:6]}-{digits[6:]}"
      return digits
  \<close>
  Among the characters below 256 the class \<^verbatim>\<open>\d\<close> holds the ten ASCII digits only.
  A slice never raises.
\<close>

definition is_digit :: "char \<Rightarrow> bool" where
  "is_digit c = (48 \<le> (of_char c :: nat) \<and> (of_char c :: nat) \<le> 57)"

definition py_slice :: "'a list \<Rightarrow> nat \<Rightarrow> nat \<Rightarrow> 'a list" where
  "py_slice xs i j = take (j - i) (drop i xs)"

definition standardize_phone_numbers :: "string \<Rightarrow> string" where
  "standardize_phone_numbers phone =
     (let digits = filter is_digit phone
      in if length digits = 10
         then ''('' @ take 3 digits @ '') '' @ py_slice digits 3 6 @ ''-'' @ drop 6 digits
         else digits)"

text \<open>
  \<^verbatim>\<open>
  def clean_whitespace(text):
      return ' '.join(text.split())
  \<close>
  \<^verbatim>\<open>str.split()\<close> without a separator cuts at every run of whitespace and yields no
  empty word. Below 256 the whitespace characters are 9 to 13, 28 to 32, 133 and 160.
  The loop of \<open>split_words\<close> carries the word being read.
\<close>

definition is_space :: "char \<Rightarrow> bool" where
  "is_space c =
     (let k = (of_char c :: nat)
      in (9 \<le> k \<and> k \<le> 13) \<or> (28 \<le> k \<and> k \<le> 32) \<or> k = 133 \<or> k = 160)"

fun split_words :: "string \<Rightarrow> string \<Rightarrow> string list" where
  "split_words cur [] = (if cur = [] then [] else [cur])"
| "split_words cur (c # cs) =
     (if is_space c then (if cur = [] then split_words [] cs else cur # split_words [] cs)
      else split_words (cur @ [c]) cs)"

definition py_split :: "string \<Rightarrow> string list" where
  "py_split text = split_words [] text"

fun py_join :: "string \<Rightarrow> string list \<Rightarrow> string" where
  "py_join sep [] = []"
| "py_join sep [w] = w"
| "py_join sep (w # v # ws) = w @ sep @ py_join sep (v # ws)"

definition clean_whitespace :: "string \<Rightarrow> string" where
  "clean_whitespace text = py_join '' '' (py_split text)"

section \<open>Records: duplicates, required fields, criteria\<close>

text \<open>
  \<^verbatim>\<open>
  def remove_duplicate_dicts(records, key):
      seen = set()
      result = []
      for record in records:
          value = record.get(key)
          if value not in seen:
              seen.add(value)
              result.append(record)
      return result
  \<close>
  The loop carries the set \<open>seen\<close> and the list \<open>result\<close>.
\<close>

fun remove_duplicate_dicts_loop ::
  "pyval set \<Rightarrow> pyrecord list \<Rightarrow> pyrecord list \<Rightarrow> string \<Rightarrow> pyrecord list" where
  "remove_duplicate_dicts_loop seen result [] key = result"
| "remove_duplicate_dicts_loop seen result (record # records) key =
     (let value = dict_get record key
      in if value \<notin> seen
         then remove_duplicate_dicts_loop (insert value seen) (result @ [record]) records key
         else remove_duplicate_dicts_loop seen result records key)"

definition remove_duplicate_dicts :: "pyrecord list \<Rightarrow> string \<Rightarrow> pyrecord list" where
  "remove_duplicate_dicts records key = remove_duplicate_dicts_loop {} [] records key"

text \<open>
  \<^verbatim>\<open>
  def filter_records_by_criteria(records, criteria):
      result = []
      for record in records:
          match = True
          for key, value in criteria.items():
              if record.get(key) != value:
                  match = False
                  break
          if match:
              result.append(record)
      return result
  \<close>
  The criteria dict is the list of its items in insertion order.
\<close>

fun matches_criteria :: "pyrecord \<Rightarrow> (string \<times> pyval) list \<Rightarrow> bool" where
  "matches_criteria record [] = True"
| "matches_criteria record ((key, value) # criteria) =
     (if dict_get record key \<noteq> value then False else matches_criteria record criteria)"

fun filter_records_loop ::
  "pyrecord list \<Rightarrow> pyrecord list \<Rightarrow> (string \<times> pyval) list \<Rightarrow> pyrecord list" where
  "filter_records_loop result [] criteria = result"
| "filter_records_loop result (record # records) criteria =
     (if matches_criteria record criteria
      then filter_records_loop (result @ [record]) records criteria
      else filter_records_loop result records criteria)"

definition filter_records_by_criteria ::
  "pyrecord list \<Rightarrow> (string \<times> pyval) list \<Rightarrow> pyrecord list" where
  "filter_records_by_criteria records criteria = filter_records_loop [] records criteria"

text \<open>
  \<^verbatim>\<open>
  def remove_records_with_missing_fields(records, required_fields):
      result = []
      for record in records:
          has_all_fields = True
          for field in required_fields:
              if field not in record or record[field] is None or record[field] == '':
                  has_all_fields = False
                  break
          if has_all_fields:
              result.append(record)
      return result
  \<close>
  \<^verbatim>\<open>record[field]\<close> is read only when the field is present.
\<close>

fun has_all_fields :: "pyrecord \<Rightarrow> string list \<Rightarrow> bool" where
  "has_all_fields record [] = True"
| "has_all_fields record (field # names) =
     (case map_of record field of
        None \<Rightarrow> False
      | Some v \<Rightarrow> if v = PNone \<or> v = PStr [] then False else has_all_fields record names)"

fun remove_missing_loop ::
  "pyrecord list \<Rightarrow> pyrecord list \<Rightarrow> string list \<Rightarrow> pyrecord list" where
  "remove_missing_loop result [] required = result"
| "remove_missing_loop result (record # records) required =
     (if has_all_fields record required
      then remove_missing_loop (result @ [record]) records required
      else remove_missing_loop result records required)"

definition remove_records_with_missing_fields ::
  "pyrecord list \<Rightarrow> string list \<Rightarrow> pyrecord list" where
  "remove_records_with_missing_fields records required = remove_missing_loop [] records required"

section \<open>The pipeline: \<^verbatim>\<open>clean_dataset\<close>\<close>

text \<open>
  \<^verbatim>\<open>
  def clean_dataset(records, config):
      results = {'original_count': len(records), 'cleaned_data': records.copy(),
                 'removed_duplicates': 0, 'removed_missing': 0, 'removed_invalid': 0}
      if config.get('remove_duplicates') and config.get('duplicate_key'):
          before = len(results['cleaned_data'])
          results['cleaned_data'] = remove_duplicate_dicts(results['cleaned_data'],
                                                           config['duplicate_key'])
          results['removed_duplicates'] = before - len(results['cleaned_data'])
      if config.get('required_fields'):
          before = len(results['cleaned_data'])
          results['cleaned_data'] = remove_records_with_missing_fields(
              results['cleaned_data'], config['required_fields'])
          results['removed_missing'] = before - len(results['cleaned_data'])
      if config.get('string_fields'):
          for record in results['cleaned_data']:
              for field in config['string_fields']:
                  if field in record and isinstance(record[field], str):
                      record[field] = clean_whitespace(record[field])
      if config.get('filters'):
          before = len(results['cleaned_data'])
          results['cleaned_data'] = filter_records_by_criteria(results['cleaned_data'],
                                                               config['filters'])
          results['removed_invalid'] = before - len(results['cleaned_data'])
      results['final_count'] = len(results['cleaned_data'])
      results['total_removed'] = results['original_count'] - results['final_count']
      return results
  \<close>
  The configuration is a dict with optional keys: \<^verbatim>\<open>config.get\<close> gives \<^term>\<open>None\<close> for
  an absent key, and an option is taken when its value is truthy (\<^verbatim>\<open>True\<close>, a
  non-empty string, list or dict). The counts are Python integers; the local
  \<^verbatim>\<open>before\<close> is written \<open>before_len\<close>.

  The third stage assigns into the record objects. Only records of the working list are
  written, each write depends on that record alone, and no other stage writes, so the
  returned list is the working list with every record rewritten.
\<close>

record config =
  remove_duplicates :: "bool option"
  duplicate_key :: "string option"
  required_fields :: "string list option"
  string_fields :: "string list option"
  filters :: "(string \<times> pyval) list option"

record results =
  original_count :: int
  cleaned_data :: "pyrecord list"
  removed_duplicates :: int
  removed_missing :: int
  removed_invalid :: int

record final_results = results +
  final_count :: int
  total_removed :: int

text \<open>Truthiness of \<^verbatim>\<open>config.get(k)\<close> for a string, list or dict option.\<close>

fun truthy :: "'a list option \<Rightarrow> bool" where
  "truthy None = False"
| "truthy (Some xs) = (xs \<noteq> [])"

definition clean_field :: "string \<Rightarrow> pyrecord \<Rightarrow> pyrecord" where
  "clean_field field record =
     (case map_of record field of
        Some (PStr s) \<Rightarrow> AList.update field (PStr (clean_whitespace s)) record
      | _ \<Rightarrow> record)"

definition clean_string_fields :: "string list \<Rightarrow> pyrecord \<Rightarrow> pyrecord" where
  "clean_string_fields names record = fold clean_field names record"

definition duplicates_stage :: "config \<Rightarrow> results \<Rightarrow> results" where
  "duplicates_stage config results =
     (if remove_duplicates config = Some True then
        (case duplicate_key config of
           None \<Rightarrow> results
         | Some key \<Rightarrow>
            if key = [] then results
            else
              (let before_len = int (length (cleaned_data results));
                   results = results\<lparr>cleaned_data :=
                               remove_duplicate_dicts (cleaned_data results) key\<rparr>
               in results\<lparr>removed_duplicates := before_len - int (length (cleaned_data results))\<rparr>))
      else results)"

definition missing_stage :: "config \<Rightarrow> results \<Rightarrow> results" where
  "missing_stage config results =
     (case required_fields config of
        None \<Rightarrow> results
      | Some names \<Rightarrow>
         if names = [] then results
         else
           (let before_len = int (length (cleaned_data results));
                results = results\<lparr>cleaned_data :=
                            remove_records_with_missing_fields (cleaned_data results) names\<rparr>
            in results\<lparr>removed_missing := before_len - int (length (cleaned_data results))\<rparr>))"

definition strings_stage :: "config \<Rightarrow> results \<Rightarrow> results" where
  "strings_stage config results =
     (case string_fields config of
        None \<Rightarrow> results
      | Some names \<Rightarrow>
         if names = [] then results
         else results\<lparr>cleaned_data := map (clean_string_fields names) (cleaned_data results)\<rparr>)"

definition filters_stage :: "config \<Rightarrow> results \<Rightarrow> results" where
  "filters_stage config results =
     (case filters config of
        None \<Rightarrow> results
      | Some criteria \<Rightarrow>
         if criteria = [] then results
         else
           (let before_len = int (length (cleaned_data results));
                results = results\<lparr>cleaned_data :=
                            filter_records_by_criteria (cleaned_data results) criteria\<rparr>
            in results\<lparr>removed_invalid := before_len - int (length (cleaned_data results))\<rparr>))"

definition clean_dataset :: "pyrecord list \<Rightarrow> config \<Rightarrow> final_results" where
  "clean_dataset records config =
     (let results = \<lparr>original_count = int (length records), cleaned_data = records,
                     removed_duplicates = 0, removed_missing = 0, removed_invalid = 0\<rparr>;
          results = duplicates_stage config results;
          results = missing_stage config results;
          results = strings_stage config results;
          results = filters_stage config results;
          final = int (length (cleaned_data results))
      in results.extend results
           \<lparr>final_count = final, total_removed = original_count results - final\<rparr>)"

text \<open>
  The record that survives the third stage for an input record: the record itself, or
  its whitespace-normalized form when \<^verbatim>\<open>string_fields\<close> is configured.
\<close>

definition normalized :: "config \<Rightarrow> pyrecord \<Rightarrow> pyrecord" where
  "normalized config record =
     (case string_fields config of
        None \<Rightarrow> record
      | Some names \<Rightarrow> clean_string_fields names record)"

text \<open>
  Names for the statements about the pipeline: whether the first stage runs and what it
  leaves, which records pass the second and the fourth stage, the fields that the first
  two stages read, and the fields that the third stage rewrites.
\<close>

definition wants_duplicates :: "config \<Rightarrow> bool" where
  "wants_duplicates config = (remove_duplicates config = Some True \<and> truthy (duplicate_key config))"

definition deduplicated :: "config \<Rightarrow> pyrecord list \<Rightarrow> pyrecord list" where
  "deduplicated config records =
     (case duplicate_key config of
        None \<Rightarrow> records
      | Some key \<Rightarrow>
         if wants_duplicates config then remove_duplicate_dicts records key else records)"

definition required_ok :: "config \<Rightarrow> pyrecord \<Rightarrow> bool" where
  "required_ok config record =
     (case required_fields config of
        None \<Rightarrow> True
      | Some names \<Rightarrow> has_all_fields record names)"

definition criteria_ok :: "config \<Rightarrow> pyrecord \<Rightarrow> bool" where
  "criteria_ok config record =
     (case filters config of
        None \<Rightarrow> True
      | Some criteria \<Rightarrow> matches_criteria record criteria)"

definition read_fields :: "config \<Rightarrow> string set" where
  "read_fields config =
     (if wants_duplicates config then set_option (duplicate_key config) else {})
     \<union> (case required_fields config of None \<Rightarrow> {} | Some names \<Rightarrow> set names)"

definition rewritten_fields :: "config \<Rightarrow> string set" where
  "rewritten_fields config =
     (case string_fields config of None \<Rightarrow> {} | Some names \<Rightarrow> set names)"

section \<open>Properties of the numeric and string helpers\<close>

lemma py_index_in_range:
  "0 \<le> i \<Longrightarrow> i < int (length xs) \<Longrightarrow> py_index xs i = Inr (xs ! nat i)"
  by (simp add: py_index_def)

text \<open>
  Claim C9. For a non-empty numeric list and a method string other than \<^verbatim>\<open>'iqr'\<close> and
  \<^verbatim>\<open>'std'\<close>, \<open>filter_outliers\<close> returns its input unchanged and raises nothing.
\<close>

theorem filter_outliers_unknown_method:
  "data \<noteq> [] \<Longrightarrow> method \<noteq> ''iqr'' \<Longrightarrow> method \<noteq> ''std'' \<Longrightarrow>
     filter_outliers data method = Inr data"
  by (simp add: filter_outliers_def)

theorem filter_outliers_unknown_method_witness:
  "filter_outliers [10, 12, 100, 1] ''zscore'' = Inr [10, 12, 100, 1]"
  using filter_outliers_unknown_method [of "[10, 12, 100, 1]" "''zscore''"] by simp

lemma quartile_index_bounds:
  fixes n :: int
  assumes "0 < n"
  shows "0 \<le> n div 4" "n div 4 < n" "0 \<le> (3 * n) div 4" "(3 * n) div 4 < n"
  using assms by presburger+

lemma nat_quartile:
  "nat (int m div 4) = m div 4" "nat ((3 * int m) div 4) = (3 * m) div 4"
  by (simp_all add: nat_div_distrib nat_mult_distrib)

text \<open>
  Claim C5. For a non-empty numeric list, the method \<^verbatim>\<open>'iqr'\<close> takes Q1 and Q3 from the
  sorted list at the indices \<open>n div 4\<close> and \<open>3 * n div 4\<close> (both in range, so no
  \<^verbatim>\<open>IndexError\<close>), and returns the elements of the input between
  \<open>Q1 - 1.5 * (Q3 - Q1)\<close> and \<open>Q3 + 1.5 * (Q3 - Q1)\<close> inclusive, in the order of the
  input.
\<close>

theorem filter_outliers_iqr:
  "data \<noteq> [] \<Longrightarrow>
     filter_outliers data ''iqr'' =
       (let s = sort data; n = length data;
            q1 = s ! (n div 4); q3 = s ! ((3 * n) div 4)
        in Inr (filter (\<lambda>x. q1 - 1.5 * (q3 - q1) \<le> x \<and> x \<le> q3 + 1.5 * (q3 - q1)) data))"
proof -
  assume ne: "data \<noteq> []"
  let ?n = "int (length (sort data))"
  have pos: "0 < ?n" using ne by simp
  have i1: "py_index (sort data) (?n div 4) = Inr (sort data ! (length data div 4))"
    using quartile_index_bounds(1,2)[OF pos] py_index_in_range[of "?n div 4" "sort data"]
    by (simp add: nat_quartile)
  have i3: "py_index (sort data) ((3 * ?n) div 4) = Inr (sort data ! ((3 * length data) div 4))"
    using quartile_index_bounds(3,4)[OF pos] py_index_in_range[of "(3 * ?n) div 4" "sort data"]
    by (simp add: nat_quartile)
  show ?thesis
    using ne i1 i3 by (simp add: filter_outliers_def Let_def)
qed

theorem filter_outliers_iqr_witness:
  "filter_outliers [10, 12, 13, 12, 11, 13, 100, 12, 11, 14, 1] ''iqr''
     = Inr [10, 12, 13, 12, 11, 13, 12, 11, 14]"
  using filter_outliers_iqr [of "[10, 12, 13, 12, 11, 13, 100, 12, 11, 14, 1]"]
  by (simp add: Let_def)

lemma sqrt_200_bounds: "14.14 < sqrt 200 \<and> sqrt 200 < 14.145"
proof -
  have "(14.14::real)^2 < 200" by (simp add: power2_eq_square)
  then have a: "14.14 < sqrt 200" by (rule real_less_rsqrt)
  have "(200::real) < 14.145^2" by (simp add: power2_eq_square)
  then have b: "sqrt 200 < 14.145" by (rule real_less_lsqrt[rotated]) simp
  show ?thesis using a b by simp
qed

lemma median_index_bounds:
  fixes n :: int
  assumes "0 < n"
  shows "0 \<le> n div 2" "n div 2 < n" "n mod 2 \<noteq> 1 \<Longrightarrow> 0 \<le> n div 2 - 1" "n div 2 - 1 < n"
  using assms by presburger+

lemma nat_median:
  "nat (int m div 2) = m div 2" "nat (int m div 2 - 1) = m div 2 - 1"
  by (simp_all add: nat_div_distrib nat_diff_distrib)

lemma int_mod_2_odd: "(int m mod 2 = 1) = odd m"
  by presburger

lemma calculate_statistics_nonempty:
  assumes ne: "numbers \<noteq> []"
  shows "calculate_statistics numbers = Inr
          \<lparr>mean = sum_list numbers / real (length numbers),
           median = (if odd (length numbers) then sort numbers ! (length numbers div 2)
                     else (sort numbers ! (length numbers div 2 - 1)
                           + sort numbers ! (length numbers div 2)) / 2),
           std_dev = sqrt ((\<Sum>x\<leftarrow>numbers. (x - sum_list numbers / real (length numbers)) ^ 2)
                           / real (length numbers))\<rparr>"
proof -
  let ?n = "int (length numbers)"
  have pos: "0 < ?n" using ne by simp
  have mid: "py_index (sort numbers) (?n div 2) = Inr (sort numbers ! (length numbers div 2))"
    using median_index_bounds(1,2)[OF pos] py_index_in_range[of "?n div 2" "sort numbers"]
    by (simp add: nat_median)
  have low: "py_index (sort numbers) (?n div 2 - 1) = Inr (sort numbers ! (length numbers div 2 - 1))"
    if "\<not> odd (length numbers)"
    using that median_index_bounds(3,4)[OF pos] py_index_in_range[of "?n div 2 - 1" "sort numbers"]
    by (simp add: nat_median int_mod_2_odd)
  have nz: "real (length numbers) \<noteq> 0" using ne by simp
  show ?thesis
  proof (cases "odd (length numbers)")
    case True
    then show ?thesis
      using ne nz mid by (simp add: calculate_statistics_def Let_def py_truediv_def int_mod_2_odd)
  next
    case False
    then show ?thesis
      using ne nz mid low[OF False]
      by (simp add: calculate_statistics_def Let_def py_truediv_def int_mod_2_odd)
  qed
qed

text \<open>
  Claim C6. \<open>calculate_statistics\<close> never raises. On the empty list it returns mean 0,
  median 0 and std\_dev 0. On a non-empty list it returns the arithmetic mean, the
  median (the middle element of the sorted list for an odd length, the average of the two
  middle elements for an even length) and the population standard deviation. On
  \<open>[10, 20, 30, 40, 50]\<close> it gives mean 30, median 30 and std\_dev \<open>sqrt 200\<close>, which
  lies between 14.14 and 14.145.
\<close>

theorem calculate_statistics_correct:
  "calculate_statistics [] = Inr \<lparr>mean = 0, median = 0, std_dev = 0\<rparr> \<and>
   (numbers \<noteq> [] \<longrightarrow>
      calculate_statistics numbers = Inr
        \<lparr>mean = sum_list numbers / real (length numbers),
         median = (if odd (length numbers) then sort numbers ! (length numbers div 2)
                   else (sort numbers ! (length numbers div 2 - 1)
                         + sort numbers ! (length numbers div 2)) / 2),
         std_dev = sqrt ((\<Sum>x\<leftarrow>numbers. (x - sum_list numbers / real (length numbers)) ^ 2)
                         / real (length numbers))\<rparr>) \<and>
   calculate_statistics [10, 20, 30, 40, 50] = Inr \<lparr>mean = 30, median = 30, std_dev = sqrt 200\<rparr> \<and>
   14.14 < sqrt 200 \<and> sqrt 200 < 14.145"
proof -
  have e: "calculate_statistics [] = Inr \<lparr>mean = 0, median = 0, std_dev = 0\<rparr>"
    by (simp add: calculate_statistics_def)
  have x: "calculate_statistics [10, 20, 30, 40, 50]
             = Inr \<lparr>mean = 30, median = 30, std_dev = sqrt 200\<rparr>"
    by (simp add: calculate_statistics_def py_truediv_def py_index_def Let_def)
  show ?thesis
    using e x sqrt_200_bounds calculate_statistics_nonempty [of numbers] by blast
qed

theorem calculate_statistics_correct_witness:
  "calculate_statistics [4, 1, 3, 2] = Inr \<lparr>mean = 5 / 2, median = 5 / 2, std_dev = sqrt (5 / 4)\<rparr>"
proof -
  have "sort [4, 1, 3, 2 :: real] = [1, 2, 3, 4]" by simp
  then show ?thesis
    using calculate_statistics_correct [of "[4, 1, 3, 2]"]
    by (simp add: power2_eq_square)
qed

lemma valid_values_of_comprehension: "valid_values_of data = [y. Some y \<leftarrow> data]"
  by (induction data) (auto simp: valid_values_of_def)

lemma valid_values_empty: "(valid_values_of data = []) = (\<forall>x\<in>set data. x = None)"
  by (induction data) (auto simp: valid_values_of_def)

lemma fill_missing_values_all_none:
  "\<forall>x\<in>set data. x = None \<Longrightarrow> fill_missing_values data None = Inr data"
  by (simp add: fill_missing_values_def valid_values_empty)

lemma fill_missing_values_some:
  assumes "\<exists>x\<in>set data. x \<noteq> None"
  shows "fill_missing_values data None =
           Inr (map (\<lambda>x. case x of
                            None \<Rightarrow> Some (sum_list [y. Some y \<leftarrow> data]
                                           / real (length [y. Some y \<leftarrow> data]))
                          | Some y \<Rightarrow> Some y) data)"
proof -
  have ne: "valid_values_of data \<noteq> []" using assms by (simp add: valid_values_empty)
  then have nz: "real (length (valid_values_of data)) \<noteq> 0" by simp
  have "fill_missing_values data None =
          Inr (fill_with (sum_list (valid_values_of data) / real (length (valid_values_of data))) data)"
    using ne nz by (simp add: fill_missing_values_def py_truediv_def Let_def)
  also have "fill_with (sum_list (valid_values_of data) / real (length (valid_values_of data))) data
      = map (\<lambda>x. case x of
                    None \<Rightarrow> Some (sum_list [y. Some y \<leftarrow> data] / real (length [y. Some y \<leftarrow> data]))
                  | Some y \<Rightarrow> Some y) data"
    unfolding fill_with_def valid_values_of_comprehension
    by (rule map_cong) (auto split: option.splits)
  finally show ?thesis .
qed

text \<open>
  Claim C7. Called without a fill value, \<open>fill_missing_values\<close> never raises. When
  every entry is \<^verbatim>\<open>None\<close> it returns the input unchanged. Otherwise it returns the
  input with each \<^verbatim>\<open>None\<close> replaced by the arithmetic mean of the entries that are not
  \<^verbatim>\<open>None\<close>, every other entry unchanged at its position. On
  \<open>[10, None, 20, None, 30, 40]\<close> it returns \<open>[10, 25, 20, 25, 30, 40]\<close>.
\<close>

theorem fill_missing_values_mean:
  "((\<forall>x\<in>set data. x = None) \<longrightarrow> fill_missing_values data None = Inr data) \<and>
   ((\<exists>x\<in>set data. x \<noteq> None) \<longrightarrow>
      fill_missing_values data None =
        Inr (map (\<lambda>x. case x of
                         None \<Rightarrow> Some (sum_list [y. Some y \<leftarrow> data]
                                        / real (length [y. Some y \<leftarrow> data]))
                       | Some y \<Rightarrow> Some y) data)) \<and>
   fill_missing_values [Some 10, None, Some 20, None, Some 30, Some 40] None
     = Inr [Some 10, Some 25, Some 20, Some 25, Some 30, Some 40]"
proof -
  have x: "fill_missing_values [Some 10, None, Some 20, None, Some 30, Some 40] None
             = Inr [Some 10, Some 25, Some 20, Some 25, Some 30, Some 40]"
    by (simp add: fill_missing_values_def valid_values_of_def fill_with_def py_truediv_def)
  show ?thesis
    using x fill_missing_values_all_none [of data] fill_missing_values_some [of data] by blast
qed

theorem fill_missing_values_mean_witness:
  "fill_missing_values [None, Some 3, Some 6, None] None = Inr [Some (9 / 2), Some 3, Some 6, Some (9 / 2)] \<and>
   fill_missing_values [None, None] None = Inr [None, None]"
  using fill_missing_values_mean [of "[None, Some 3, Some 6, None]"]
        fill_missing_values_mean [of "[None, None]"]
  by simp

lemma is_digit_iff: "is_digit c = (c \<in> set ''0123456789'')"
proof
  assume "is_digit c"
  then have "(of_char c :: nat) \<in> {48, 49, 50, 51, 52, 53, 54, 55, 56, 57}"
    unfolding is_digit_def by (simp; arith)
  then have "(of_char c :: nat) \<in> of_char ` set ''0123456789''"
    by simp
  then show "c \<in> set ''0123456789''"
    by (simp only: inj_image_mem_iff [OF inj_of_char])
next
  assume "c \<in> set ''0123456789''"
  then show "is_digit c" by (auto simp: is_digit_def)
qed

lemma standardize_phone_numbers_ten:
  assumes "length (filter is_digit phone) = 10"
  shows "standardize_phone_numbers phone =
     (let d = filter is_digit phone
      in [CHR ''('', d ! 0, d ! 1, d ! 2, CHR '')'', CHR '' '', d ! 3, d ! 4, d ! 5, CHR ''-'',
          d ! 6, d ! 7, d ! 8, d ! 9])"
proof -
  obtain d where d: "d = filter is_digit phone" by simp
  with assms have l: "length d = 10" by simp
  then obtain a0 a1 a2 a3 a4 a5 a6 a7 a8 a9 where "d = [a0, a1, a2, a3, a4, a5, a6, a7, a8, a9]"
    by (auto simp: length_Suc_conv eval_nat_numeral)
  then show ?thesis
    using d by (simp add: standardize_phone_numbers_def Let_def py_slice_def)
qed

text \<open>
  Claim C8. \<open>standardize_phone_numbers\<close> is total. The digits of the input are its
  characters \<open>0\<close> to \<open>9\<close>, in order. When there are exactly ten of them the result is
  \<open>(AAA) BBB-CCCC\<close>: an opening bracket, digits 1 to 3, a closing bracket and a space,
  digits 4 to 6, a hyphen, digits 7 to 10. Otherwise the result is the digit string.
  \<open>(123) 456-7890\<close> is mapped to itself and \<open>123\<close> to \<open>123\<close>.
\<close>

theorem standardize_phone_numbers_correct:
  "(length (filter (\<lambda>c. c \<in> set ''0123456789'') phone) = 10 \<longrightarrow>
      standardize_phone_numbers phone =
        (let d = filter (\<lambda>c. c \<in> set ''0123456789'') phone
         in [CHR ''('', d ! 0, d ! 1, d ! 2, CHR '')'', CHR '' '', d ! 3, d ! 4, d ! 5, CHR ''-'',
             d ! 6, d ! 7, d ! 8, d ! 9])) \<and>
   (length (filter (\<lambda>c. c \<in> set ''0123456789'') phone) \<noteq> 10 \<longrightarrow>
      standardize_phone_numbers phone = filter (\<lambda>c. c \<in> set ''0123456789'') phone) \<and>
   standardize_phone_numbers ''(123) 456-7890'' = ''(123) 456-7890'' \<and>
   standardize_phone_numbers ''123'' = ''123''"
proof -
  have f: "filter (\<lambda>c. c \<in> set ''0123456789'') phone = filter is_digit phone"
    by (rule filter_cong) (simp_all only: is_digit_iff)
  have a: "standardize_phone_numbers ''(123) 456-7890'' = ''(123) 456-7890''"
    by (simp add: standardize_phone_numbers_def is_digit_def py_slice_def)
  have b: "standardize_phone_numbers ''123'' = ''123''"
    by (simp add: standardize_phone_numbers_def is_digit_def py_slice_def)
  have c: "length (filter is_digit phone) \<noteq> 10 \<Longrightarrow>
             standardize_phone_numbers phone = filter is_digit phone"
    by (simp add: standardize_phone_numbers_def)
  show ?thesis
    unfolding f using a b c standardize_phone_numbers_ten [of phone] by blast
qed

theorem standardize_phone_numbers_correct_witness:
  "standardize_phone_numbers ''123.456.7890'' = ''(123) 456-7890'' \<and>
   standardize_phone_numbers ''+1 555 123 4567'' = ''15551234567''"
  using standardize_phone_numbers_correct [of "''123.456.7890''"]
        standardize_phone_numbers_correct [of "''+1 555 123 4567''"]
  by (simp add: Let_def)

section \<open>Properties of the record helpers\<close>

lemma matches_criteria_iff:
  "matches_criteria record criteria = (\<forall>(key, value)\<in>set criteria. dict_get record key = value)"
  by (induction criteria) (auto split: if_splits)

lemma filter_records_loop_eq:
  "filter_records_loop result records criteria
     = result @ filter (\<lambda>r. matches_criteria r criteria) records"
  by (induction records arbitrary: result) auto

lemma filter_records_by_criteria_eq:
  "filter_records_by_criteria records criteria = filter (\<lambda>r. matches_criteria r criteria) records"
  by (simp add: filter_records_by_criteria_def filter_records_loop_eq)

lemma has_all_fields_iff:
  "has_all_fields record required =
     (\<forall>field\<in>set required. \<exists>v. map_of record field = Some v \<and> v \<noteq> PNone \<and> v \<noteq> PStr [])"
  by (induction required) (auto split: option.splits)

lemma remove_missing_loop_eq:
  "remove_missing_loop result records required
     = result @ filter (\<lambda>r. has_all_fields r required) records"
  by (induction records arbitrary: result) auto

lemma remove_records_with_missing_fields_eq:
  "remove_records_with_missing_fields records required
     = filter (\<lambda>r. has_all_fields r required) records"
  by (simp add: remove_records_with_missing_fields_def remove_missing_loop_eq)

lemma remove_duplicate_dicts_loop_acc:
  "remove_duplicate_dicts_loop seen result records key
     = result @ remove_duplicate_dicts_loop seen [] records key"
proof (induction records arbitrary: seen result)
  case Nil
  show ?case by simp
next
  case (Cons r rs)
  show ?case
  proof (cases "dict_get r key \<in> seen")
    case True
    then show ?thesis using Cons.IH [of seen result] by simp
  next
    case False
    have "remove_duplicate_dicts_loop seen result (r # rs) key
            = (result @ [r]) @ remove_duplicate_dicts_loop (insert (dict_get r key) seen) [] rs key"
      using False Cons.IH [of "insert (dict_get r key) seen" "result @ [r]"] by simp
    moreover have "remove_duplicate_dicts_loop seen [] (r # rs) key
            = [r] @ remove_duplicate_dicts_loop (insert (dict_get r key) seen) [] rs key"
      using False Cons.IH [of "insert (dict_get r key) seen" "[r]"] by simp
    ultimately show ?thesis by simp
  qed
qed

lemma remove_duplicate_dicts_loop_Cons:
  "remove_duplicate_dicts_loop seen [] (r # rs) key =
     (if dict_get r key \<notin> seen
      then r # remove_duplicate_dicts_loop (insert (dict_get r key) seen) [] rs key
      else remove_duplicate_dicts_loop seen [] rs key)"
  using remove_duplicate_dicts_loop_acc [of "insert (dict_get r key) seen" "[r]" rs key]
  by simp

lemma remove_duplicate_dicts_loop_set:
  "set (remove_duplicate_dicts_loop seen [] rs key) \<subseteq> set rs \<and>
   (\<forall>r\<in>set (remove_duplicate_dicts_loop seen [] rs key). dict_get r key \<notin> seen)"
proof (induction rs arbitrary: seen)
  case Nil
  show ?case by simp
next
  case (Cons r rs)
  show ?case
    using Cons.IH [of seen] Cons.IH [of "insert (dict_get r key) seen"]
    by (auto simp: remove_duplicate_dicts_loop_Cons simp del: remove_duplicate_dicts_loop.simps)
qed

lemma remove_duplicate_dicts_loop_distinct:
  "distinct (map (\<lambda>r. dict_get r key) (remove_duplicate_dicts_loop seen [] rs key))"
proof (induction rs arbitrary: seen)
  case Nil
  show ?case by simp
next
  case (Cons r rs)
  show ?case
    using Cons.IH [of seen] Cons.IH [of "insert (dict_get r key) seen"]
          remove_duplicate_dicts_loop_set [of "insert (dict_get r key) seen" rs key]
    by (auto simp: remove_duplicate_dicts_loop_Cons simp del: remove_duplicate_dicts_loop.simps)
qed

lemma remove_duplicate_dicts_loop_id:
  "distinct (map (\<lambda>r. dict_get r key) rs) \<Longrightarrow> \<forall>r\<in>set rs. dict_get r key \<notin> seen \<Longrightarrow>
     remove_duplicate_dicts_loop seen [] rs key = rs"
proof (induction rs arbitrary: seen)
  case Nil
  show ?case by simp
next
  case (Cons r rs)
  have "remove_duplicate_dicts_loop (insert (dict_get r key) seen) [] rs key = rs"
  proof (rule Cons.IH)
    show "distinct (map (\<lambda>r. dict_get r key) rs)" using Cons.prems by simp
    show "\<forall>x\<in>set rs. dict_get x key \<notin> insert (dict_get r key) seen"
      using Cons.prems by (auto simp: image_iff)
  qed
  then show ?case using Cons.prems
    by (simp add: remove_duplicate_dicts_loop_Cons del: remove_duplicate_dicts_loop.simps)
qed

lemma remove_duplicate_dicts_loop_subseq:
  "subseq (remove_duplicate_dicts_loop seen [] rs key) rs"
proof (induction rs arbitrary: seen)
  case Nil
  show ?case by simp
next
  case (Cons r rs)
  show ?case
    using Cons.IH [of seen] Cons.IH [of "insert (dict_get r key) seen"]
    by (auto simp: remove_duplicate_dicts_loop_Cons simp del: remove_duplicate_dicts_loop.simps)
qed

lemma remove_duplicate_dicts_loop_indices:
  "remove_duplicate_dicts_loop seen [] rs key =
     map (\<lambda>i. rs ! i)
       (filter (\<lambda>i. dict_get (rs ! i) key \<notin> seen \<and>
                    (\<forall>j<i. dict_get (rs ! j) key \<noteq> dict_get (rs ! i) key))
          [0..<length rs])"
proof (induction rs arbitrary: seen)
  case Nil
  show ?case by simp
next
  case (Cons r rs)
  let ?g = "\<lambda>x. dict_get x key"
  let ?P = "\<lambda>s xs i. ?g (xs ! i) \<notin> s \<and> (\<forall>j<i. ?g (xs ! j) \<noteq> ?g (xs ! i))"
  have upt: "[0..<length (r # rs)] = 0 # map Suc [0..<length rs]"
    by (simp add: upt_conv_Cons map_Suc_upt del: upt_Suc)
  have all_Suc: "(\<forall>j<Suc i. Q j) = (Q 0 \<and> (\<forall>j<i. Q (Suc j)))" for i and Q :: "nat \<Rightarrow> bool"
    by (metis less_Suc_eq_0_disj)
  have rhs: "map (\<lambda>i. (r # rs) ! i) (filter (?P seen (r # rs)) [0..<length (r # rs)])
               = (if ?g r \<notin> seen then [r] else [])
                 @ map (\<lambda>i. rs ! i) (filter (\<lambda>i. ?P seen (r # rs) (Suc i)) [0..<length rs])"
    unfolding upt by (simp add: filter_map comp_def)
  show ?case
  proof (cases "?g r \<in> seen")
    case True
    have "filter (\<lambda>i. ?P seen (r # rs) (Suc i)) [0..<length rs] = filter (?P seen rs) [0..<length rs]"
      using True by (intro filter_cong refl) (auto simp: all_Suc)
    then have "map (\<lambda>i. (r # rs) ! i) (filter (?P seen (r # rs)) [0..<length (r # rs)])
                 = map (\<lambda>i. rs ! i) (filter (?P seen rs) [0..<length rs])"
      using True by (simp only: rhs) simp
    moreover have "remove_duplicate_dicts_loop seen [] (r # rs) key
                     = remove_duplicate_dicts_loop seen [] rs key"
      using True by (simp only: remove_duplicate_dicts_loop_Cons) simp
    ultimately show ?thesis using Cons.IH [of seen] by (simp only:)
  next
    case False
    have "filter (\<lambda>i. ?P seen (r # rs) (Suc i)) [0..<length rs]
            = filter (?P (insert (?g r) seen) rs) [0..<length rs]"
      by (intro filter_cong refl) (auto simp: all_Suc)
    then have "map (\<lambda>i. (r # rs) ! i) (filter (?P seen (r # rs)) [0..<length (r # rs)])
                 = r # map (\<lambda>i. rs ! i) (filter (?P (insert (?g r) seen) rs) [0..<length rs])"
      using False by (simp only: rhs) simp
    moreover have "remove_duplicate_dicts_loop seen [] (r # rs) key
                     = r # remove_duplicate_dicts_loop (insert (?g r) seen) [] rs key"
      using False by (simp only: remove_duplicate_dicts_loop_Cons) simp
    ultimately show ?thesis using Cons.IH [of "insert (?g r) seen"] by (simp only:)
  qed
qed


lemma remove_duplicate_dicts_indices:
  "remove_duplicate_dicts records key =
     map (\<lambda>i. records ! i)
       (filter (\<lambda>i. \<forall>j<i. dict_get (records ! j) key \<noteq> dict_get (records ! i) key)
          [0..<length records])"
  by (simp add: remove_duplicate_dicts_def remove_duplicate_dicts_loop_indices)

lemma dict_get_missing: "map_of r key = None \<Longrightarrow> dict_get r key = PNone"
  by (simp add: dict_get_def)

lemma dict_get_PNone_iff:
  "(dict_get r key = PNone) = (map_of r key = None \<or> map_of r key = Some PNone)"
  by (simp add: dict_get_def split: option.splits)

text \<open>
  Claim C4, amended. \<open>remove_duplicate_dicts\<close> keeps, in the order of the input, exactly
  the records that are the first with their value of \<^verbatim>\<open>record.get(key)\<close>, where a
  record missing the key has the value \<^verbatim>\<open>None\<close>. So a record missing the key is kept
  exactly when no earlier record misses the key or holds \<^verbatim>\<open>None\<close> under it: every
  record missing the key after the first such record is dropped, and the first one
  is dropped too when an earlier record stores an explicit \<^verbatim>\<open>None\<close>.
\<close>

theorem remove_duplicate_dicts_first_occurrence:
  "remove_duplicate_dicts records key =
     map (\<lambda>i. records ! i)
       (filter (\<lambda>i. \<forall>j<i. dict_get (records ! j) key \<noteq> dict_get (records ! i) key)
          [0..<length records]) \<and>
   (\<forall>i<length records. map_of (records ! i) key = None \<longrightarrow>
      (i \<in> set (filter (\<lambda>i. \<forall>j<i. dict_get (records ! j) key \<noteq> dict_get (records ! i) key)
                   [0..<length records])
       \<longleftrightarrow> (\<forall>j<i. map_of (records ! j) key \<noteq> None \<and> map_of (records ! j) key \<noteq> Some PNone)))"
proof -
  have "(\<forall>j<i. dict_get (records ! j) key \<noteq> dict_get (records ! i) key)
          = (\<forall>j<i. map_of (records ! j) key \<noteq> None \<and> map_of (records ! j) key \<noteq> Some PNone)"
    if "map_of (records ! i) key = None" for i
    using that by (simp add: dict_get_missing dict_get_PNone_iff)
  then show ?thesis
    by (simp add: remove_duplicate_dicts_indices)
qed

theorem remove_duplicate_dicts_first_occurrence_witness:
  "remove_duplicate_dicts
     [[(''id'', PNum 1)], [(''n'', PStr ''x'')], [(''id'', PNum 1), (''n'', PStr ''y'')], [(''n'', PStr ''z'')]] ''id''
   = [[(''id'', PNum 1)], [(''n'', PStr ''x'')]]"
  using remove_duplicate_dicts_first_occurrence
    [of "[[(''id'', PNum 1)], [(''n'', PStr ''x'')], [(''id'', PNum 1), (''n'', PStr ''y'')], [(''n'', PStr ''z'')]]" "''id''"]
  by (simp add: dict_get_def upt_conv_Cons less_Suc_eq del: upt_Suc)

text \<open>
  The claim as written says that the first record missing the key is always kept. Here
  the first record stores \<^verbatim>\<open>None\<close> under \<open>id\<close>, and the only record missing \<open>id\<close> is
  dropped.
\<close>

theorem remove_duplicate_dicts_counterexample:
  "remove_duplicate_dicts [[(''id'', PNone)], [(''name'', PStr ''Ann'')]] ''id'' = [[(''id'', PNone)]] \<and>
   map_of [(''name'', PStr ''Ann'')] ''id'' = None"
  by (simp add: remove_duplicate_dicts_def dict_get_def)

text \<open>
  Claim C3, amended. \<open>filter_records_by_criteria\<close> keeps a record iff
  \<^verbatim>\<open>record.get(field) == value\<close> for every item of the criteria, in the order of the
  input; a kept record has every criteria field whose value is not \<^verbatim>\<open>None\<close>. (A
  record lacking a field does match a criterion whose value is \<^verbatim>\<open>None\<close>.)
\<close>

theorem filter_records_by_criteria_correct:
  "filter_records_by_criteria records criteria
     = filter (\<lambda>r. \<forall>(key, value)\<in>set criteria. dict_get r key = value) records \<and>
   (\<forall>r\<in>set (filter_records_by_criteria records criteria).
      \<forall>(key, value)\<in>set criteria. value \<noteq> PNone \<longrightarrow> dict_contains r key)"
proof -
  have "dict_contains r key" if "dict_get r key = v" "v \<noteq> PNone" for r key v
    using that by (auto simp: dict_get_def dict_contains_def split: option.splits)
  then show ?thesis
    by (fastforce simp: filter_records_by_criteria_eq matches_criteria_iff)
qed

theorem filter_records_by_criteria_correct_witness:
  "filter_records_by_criteria
     [[(''city'', PStr ''Oslo''), (''age'', PNum 30)], [(''age'', PNum 30)], [(''city'', PStr ''Rome''), (''age'', PNum 30)]]
     [(''city'', PStr ''Oslo''), (''age'', PNum 30)]
   = [[(''city'', PStr ''Oslo''), (''age'', PNum 30)]]"
  using filter_records_by_criteria_correct
    [of "[[(''city'', PStr ''Oslo''), (''age'', PNum 30)], [(''age'', PNum 30)], [(''city'', PStr ''Rome''), (''age'', PNum 30)]]"
        "[(''city'', PStr ''Oslo''), (''age'', PNum 30)]"]
  by (simp add: dict_get_def)

text \<open>
  The claim as written excludes every record lacking a criteria field, also for the
  value \<^verbatim>\<open>None\<close>. Here the record lacks \<open>city\<close> and is kept.
\<close>

theorem filter_records_by_criteria_counterexample:
  "filter_records_by_criteria [[(''name'', PStr ''Ann'')]] [(''city'', PNone)] = [[(''name'', PStr ''Ann'')]] \<and>
   \<not> dict_contains [(''name'', PStr ''Ann'')] ''city''"
  by (simp add: filter_records_by_criteria_def dict_get_def dict_contains_def)

section \<open>Properties of the pipeline\<close>

lemma is_space_blank: "is_space CHR '' ''"
  by (simp add: is_space_def)

lemma split_words_word:
  "\<forall>c\<in>set cur. \<not> is_space c \<Longrightarrow>
     \<forall>w\<in>set (split_words cur cs). w \<noteq> [] \<and> (\<forall>c\<in>set w. \<not> is_space c)"
proof (induction cs arbitrary: cur)
  case Nil
  then show ?case by simp
next
  case (Cons a cs)
  show ?case
  proof (cases "is_space a")
    case True
    then show ?thesis using Cons.IH [of "[]"] Cons.prems by auto
  next
    case False
    have "\<forall>c\<in>set (cur @ [a]). \<not> is_space c" using False Cons.prems by simp
    from Cons.IH [OF this] show ?thesis using False by simp
  qed
qed

lemma split_words_append:
  "\<forall>c\<in>set w. \<not> is_space c \<Longrightarrow> split_words cur (w @ rest) = split_words (cur @ w) rest"
proof (induction w arbitrary: cur)
  case Nil
  show ?case by simp
next
  case (Cons a w)
  have "split_words cur ((a # w) @ rest) = split_words (cur @ [a]) (w @ rest)"
    using Cons.prems by simp
  also have "\<dots> = split_words ((cur @ [a]) @ w) rest"
    using Cons.prems by (intro Cons.IH) simp
  finally show ?case by simp
qed


lemma split_words_single:
  "w \<noteq> [] \<Longrightarrow> \<forall>c\<in>set w. \<not> is_space c \<Longrightarrow> split_words [] w = [w]"
  using split_words_append [of w "[]" "[]"] by simp

lemma split_words_blank:
  "w \<noteq> [] \<Longrightarrow> \<forall>c\<in>set w. \<not> is_space c \<Longrightarrow>
     split_words [] (w @ CHR '' '' # rest) = w # split_words [] rest"
  using split_words_append [of w "[]" "CHR '' '' # rest"] by (simp add: is_space_blank)

lemma split_words_join:
  "\<forall>w\<in>set ws. w \<noteq> [] \<and> (\<forall>c\<in>set w. \<not> is_space c) \<Longrightarrow>
     split_words [] (py_join '' '' ws) = ws"
proof (induction ws)
  case Nil
  show ?case by simp
next
  case (Cons w ws)
  show ?case
  proof (cases ws)
    case Nil
    then show ?thesis using Cons.prems by (simp add: split_words_single)
  next
    case (Cons v vs)
    have "split_words [] (py_join '' '' (w # v # vs)) = w # split_words [] (py_join '' '' (v # vs))"
      using Cons.prems by (simp add: split_words_blank)
    moreover have "split_words [] (py_join '' '' (v # vs)) = v # vs"
      using Cons.IH Cons.prems Cons by simp
    ultimately show ?thesis using Cons by simp
  qed
qed

lemma clean_whitespace_idem: "clean_whitespace (clean_whitespace s) = clean_whitespace s"
proof -
  have "\<forall>w\<in>set (split_words [] s). w \<noteq> [] \<and> (\<forall>c\<in>set w. \<not> is_space c)"
    by (rule split_words_word) simp
  then have "split_words [] (py_join '' '' (split_words [] s)) = split_words [] s"
    by (rule split_words_join)
  then show ?thesis
    by (simp add: clean_whitespace_def py_split_def)
qed


lemma map_of_clean_field:
  "map_of (clean_field field r) k =
     (if k = field
      then (case map_of r field of
              Some (PStr s) \<Rightarrow> Some (PStr (clean_whitespace s))
            | other \<Rightarrow> other)
      else map_of r k)"
  by (simp add: clean_field_def update_conv' split: option.splits pyval.splits)

lemma map_of_clean_string_fields_other:
  "k \<notin> set names \<Longrightarrow> map_of (clean_string_fields names r) k = map_of r k"
  unfolding clean_string_fields_def
  by (induction names arbitrary: r) (simp_all add: map_of_clean_field)

lemma clean_field_fixed:
  "\<forall>s. map_of r field = Some (PStr s) \<longrightarrow> clean_whitespace s = s \<Longrightarrow> clean_field field r = r"
  by (auto simp: clean_field_def update_triv split: option.splits pyval.splits)

lemma clean_field_keeps_clean:
  "\<forall>s. map_of r k = Some (PStr s) \<longrightarrow> clean_whitespace s = s \<Longrightarrow>
     \<forall>s. map_of (clean_field field r) k = Some (PStr s) \<longrightarrow> clean_whitespace s = s"
  by (auto simp: map_of_clean_field clean_whitespace_idem split: option.splits pyval.splits if_splits)

lemma clean_field_makes_clean:
  "\<forall>s. map_of (clean_field field r) field = Some (PStr s) \<longrightarrow> clean_whitespace s = s"
  by (auto simp: map_of_clean_field clean_whitespace_idem split: option.splits pyval.splits)

lemma clean_string_fields_keeps_clean:
  "\<forall>s. map_of r k = Some (PStr s) \<longrightarrow> clean_whitespace s = s \<Longrightarrow>
     \<forall>s. map_of (clean_string_fields names r) k = Some (PStr s) \<longrightarrow> clean_whitespace s = s"
  unfolding clean_string_fields_def
proof (induction names arbitrary: r)
  case Nil
  then show ?case by simp
next
  case (Cons field names)
  have "\<forall>s. map_of (clean_field field r) k = Some (PStr s) \<longrightarrow> clean_whitespace s = s"
    using Cons.prems by (rule clean_field_keeps_clean)
  from Cons.IH [OF this] show ?case by simp
qed

lemma clean_string_fields_makes_clean:
  "k \<in> set names \<Longrightarrow>
     \<forall>s. map_of (clean_string_fields names r) k = Some (PStr s) \<longrightarrow> clean_whitespace s = s"
proof (induction names arbitrary: r)
  case Nil
  then show ?case by simp
next
  case (Cons field names)
  show ?case
  proof (cases "k = field")
    case True
    have "\<forall>s. map_of (clean_string_fields names (clean_field field r)) k = Some (PStr s)
            \<longrightarrow> clean_whitespace s = s"
      using clean_field_makes_clean [of field r] True
      by (intro clean_string_fields_keeps_clean) simp
    then show ?thesis by (simp add: clean_string_fields_def)
  next
    case False
    then have "k \<in> set names" using Cons.prems by simp
    from Cons.IH [OF this, of "clean_field field r"] show ?thesis
      by (simp add: clean_string_fields_def)
  qed
qed

lemma clean_string_fields_fixed:
  "\<forall>k\<in>set names. \<forall>s. map_of r k = Some (PStr s) \<longrightarrow> clean_whitespace s = s \<Longrightarrow>
     clean_string_fields names r = r"
  unfolding clean_string_fields_def
  by (induction names) (simp_all add: clean_field_fixed)

lemma clean_string_fields_idem:
  "clean_string_fields names (clean_string_fields names r) = clean_string_fields names r"
  by (rule clean_string_fields_fixed) (simp add: clean_string_fields_makes_clean)

lemma normalized_idem: "normalized config (normalized config r) = normalized config r"
  by (simp add: normalized_def clean_string_fields_idem split: option.splits)

lemma map_of_normalized_other:
  "k \<notin> rewritten_fields config \<Longrightarrow> map_of (normalized config r) k = map_of r k"
  by (simp add: normalized_def rewritten_fields_def map_of_clean_string_fields_other
           split: option.splits)


lemma deduplicated_off: "\<not> wants_duplicates config \<Longrightarrow> deduplicated config rs = rs"
  by (simp add: deduplicated_def split: option.splits)

lemma required_ok_off: "\<not> truthy (required_fields config) \<Longrightarrow> required_ok config r"
  by (cases "required_fields config") (simp_all add: required_ok_def)

lemma criteria_ok_off: "\<not> truthy (filters config) \<Longrightarrow> criteria_ok config r"
  by (cases "filters config") (simp_all add: criteria_ok_def)

lemma required_ok_fun:
  "required_ok config =
     (case required_fields config of
        None \<Rightarrow> (\<lambda>r. True)
      | Some names \<Rightarrow> (\<lambda>r. has_all_fields r names))"
  by (auto simp: fun_eq_iff required_ok_def split: option.splits)

lemma criteria_ok_fun:
  "criteria_ok config =
     (case filters config of
        None \<Rightarrow> (\<lambda>r. True)
      | Some criteria \<Rightarrow> (\<lambda>r. matches_criteria r criteria))"
  by (auto simp: fun_eq_iff criteria_ok_def split: option.splits)

lemma normalized_fun:
  "normalized config =
     (case string_fields config of
        None \<Rightarrow> (\<lambda>r. r)
      | Some names \<Rightarrow> clean_string_fields names)"
  by (auto simp: fun_eq_iff normalized_def split: option.splits)

lemma duplicates_stage_eq:
  "duplicates_stage config r =
     r\<lparr>cleaned_data := deduplicated config (cleaned_data r),
       removed_duplicates :=
         (if wants_duplicates config
          then int (length (cleaned_data r)) - int (length (deduplicated config (cleaned_data r)))
          else removed_duplicates r)\<rparr>"
  by (cases "duplicate_key config")
     (simp_all add: duplicates_stage_def deduplicated_def wants_duplicates_def Let_def)

lemma missing_stage_eq:
  "missing_stage config r =
     r\<lparr>cleaned_data := filter (required_ok config) (cleaned_data r),
       removed_missing :=
         (if truthy (required_fields config)
          then int (length (cleaned_data r))
               - int (length (filter (required_ok config) (cleaned_data r)))
          else removed_missing r)\<rparr>"
  by (cases "required_fields config")
     (simp_all add: missing_stage_def required_ok_fun Let_def
        remove_records_with_missing_fields_eq)

lemma strings_stage_eq:
  "strings_stage config r = r\<lparr>cleaned_data := map (normalized config) (cleaned_data r)\<rparr>"
proof (cases "string_fields config")
  case None
  then show ?thesis by (simp add: strings_stage_def normalized_fun)
next
  case (Some names)
  have "map (clean_string_fields []) xs = xs" for xs :: "pyrecord list"
    by (induction xs) (simp_all add: clean_string_fields_def)
  then show ?thesis using Some by (simp add: strings_stage_def normalized_fun)
qed

lemma filters_stage_eq:
  "filters_stage config r =
     r\<lparr>cleaned_data := filter (criteria_ok config) (cleaned_data r),
       removed_invalid :=
         (if truthy (filters config)
          then int (length (cleaned_data r))
               - int (length (filter (criteria_ok config) (cleaned_data r)))
          else removed_invalid r)\<rparr>"
  by (cases "filters config")
     (simp_all add: filters_stage_def criteria_ok_fun Let_def filter_records_by_criteria_eq)

lemma clean_dataset_eq:
  "clean_dataset records config =
     \<lparr>original_count = int (length records),
      cleaned_data = filter (criteria_ok config) (map (normalized config)
                       (filter (required_ok config) (deduplicated config records))),
      removed_duplicates = int (length records) - int (length (deduplicated config records)),
      removed_missing = int (length (deduplicated config records))
                        - int (length (filter (required_ok config) (deduplicated config records))),
      removed_invalid = int (length (filter (required_ok config) (deduplicated config records)))
                        - int (length (filter (criteria_ok config) (map (normalized config)
                            (filter (required_ok config) (deduplicated config records))))),
      final_count = int (length (filter (criteria_ok config) (map (normalized config)
                            (filter (required_ok config) (deduplicated config records))))),
      total_removed = int (length records)
                      - int (length (filter (criteria_ok config) (map (normalized config)
                            (filter (required_ok config) (deduplicated config records)))))\<rparr>"
  by (simp add: clean_dataset_def Let_def duplicates_stage_eq missing_stage_eq strings_stage_eq
        filters_stage_eq results.defs deduplicated_off required_ok_off criteria_ok_off)


lemma filter_required_off:
  "\<not> truthy (required_fields config) \<Longrightarrow> filter (required_ok config) rs = rs"
  by (simp add: required_ok_off)

lemma filter_criteria_off:
  "\<not> truthy (filters config) \<Longrightarrow> filter (criteria_ok config) rs = rs"
  by (simp add: criteria_ok_off)

lemma deduplicated_subseq: "subseq (deduplicated config rs) rs"
  by (simp add: deduplicated_def remove_duplicate_dicts_def remove_duplicate_dicts_loop_subseq
        split: option.splits)

lemma normalized_off: "\<not> truthy (string_fields config) \<Longrightarrow> normalized config r = r"
  by (cases "string_fields config") (simp_all add: normalized_def clean_string_fields_def)

lemmas pipeline_defs =
  clean_dataset_def duplicates_stage_def missing_stage_def strings_stage_def filters_stage_def
  remove_duplicate_dicts_def remove_records_with_missing_fields_def
  filter_records_by_criteria_def dict_get_def clean_string_fields_def clean_field_def
  clean_whitespace_def py_split_def is_space_def Let_def results.defs

text \<open>
  Claim C1. For every list of records and every configuration, the result of
  \<open>clean_dataset\<close> has \<open>original_count - total_removed = final_count\<close>, and
  \<open>total_removed\<close> is the sum of \<open>removed_duplicates\<close>, \<open>removed_missing\<close> and
  \<open>removed_invalid\<close>, where the count of a stage that is not configured is zero.
  \<open>original_count\<close> is the length of the input and \<open>final_count\<close> the length of the
  cleaned data.
\<close>

theorem clean_dataset_counts:
  "original_count (clean_dataset records config) = int (length records) \<and>
   final_count (clean_dataset records config)
     = int (length (cleaned_data (clean_dataset records config))) \<and>
   original_count (clean_dataset records config) - total_removed (clean_dataset records config)
     = final_count (clean_dataset records config) \<and>
   total_removed (clean_dataset records config)
     = removed_duplicates (clean_dataset records config)
       + removed_missing (clean_dataset records config)
       + removed_invalid (clean_dataset records config) \<and>
   (\<not> wants_duplicates config \<longrightarrow> removed_duplicates (clean_dataset records config) = 0) \<and>
   (\<not> truthy (required_fields config) \<longrightarrow> removed_missing (clean_dataset records config) = 0) \<and>
   (\<not> truthy (filters config) \<longrightarrow> removed_invalid (clean_dataset records config) = 0)"
  by (simp add: clean_dataset_eq deduplicated_off filter_required_off filter_criteria_off)

theorem clean_dataset_counts_witness:
  "removed_duplicates
     (clean_dataset
        [[(''id'', PNum 1), (''name'', PStr ''Ann'')], [(''id'', PNum 1), (''name'', PStr ''Bob'')],
         [(''id'', PNum 2), (''name'', PStr [])]]
        \<lparr>remove_duplicates = Some True, duplicate_key = Some ''id'',
         required_fields = Some [''name''], string_fields = None, filters = None\<rparr>) = 1 \<and>
   removed_missing
     (clean_dataset
        [[(''id'', PNum 1), (''name'', PStr ''Ann'')], [(''id'', PNum 1), (''name'', PStr ''Bob'')],
         [(''id'', PNum 2), (''name'', PStr [])]]
        \<lparr>remove_duplicates = Some True, duplicate_key = Some ''id'',
         required_fields = Some [''name''], string_fields = None, filters = None\<rparr>) = 1 \<and>
   removed_invalid
     (clean_dataset
        [[(''id'', PNum 1), (''name'', PStr ''Ann'')], [(''id'', PNum 1), (''name'', PStr ''Bob'')],
         [(''id'', PNum 2), (''name'', PStr [])]]
        \<lparr>remove_duplicates = Some True, duplicate_key = Some ''id'',
         required_fields = Some [''name''], string_fields = None, filters = None\<rparr>) = 0 \<and>
   total_removed
     (clean_dataset
        [[(''id'', PNum 1), (''name'', PStr ''Ann'')], [(''id'', PNum 1), (''name'', PStr ''Bob'')],
         [(''id'', PNum 2), (''name'', PStr [])]]
        \<lparr>remove_duplicates = Some True, duplicate_key = Some ''id'',
         required_fields = Some [''name''], string_fields = None, filters = None\<rparr>) = 2 \<and>
   final_count
     (clean_dataset
        [[(''id'', PNum 1), (''name'', PStr ''Ann'')], [(''id'', PNum 1), (''name'', PStr ''Bob'')],
         [(''id'', PNum 2), (''name'', PStr [])]]
        \<lparr>remove_duplicates = Some True, duplicate_key = Some ''id'',
         required_fields = Some [''name''], string_fields = None, filters = None\<rparr>) = 1"
proof -
  let ?r = "clean_dataset
        [[(''id'', PNum 1), (''name'', PStr ''Ann'')], [(''id'', PNum 1), (''name'', PStr ''Bob'')],
         [(''id'', PNum 2), (''name'', PStr [])]]
        \<lparr>remove_duplicates = Some True, duplicate_key = Some ''id'',
         required_fields = Some [''name''], string_fields = None, filters = None\<rparr>"
  have d: "removed_duplicates ?r = 1" by (simp add: pipeline_defs)
  have m: "removed_missing ?r = 1" by (simp add: pipeline_defs)
  show ?thesis
    using d m clean_dataset_counts
      [of "[[(''id'', PNum 1), (''name'', PStr ''Ann'')], [(''id'', PNum 1), (''name'', PStr ''Bob'')],
            [(''id'', PNum 2), (''name'', PStr [])]]"
          "\<lparr>remove_duplicates = Some True, duplicate_key = Some ''id'',
            required_fields = Some [''name''], string_fields = None, filters = None\<rparr>"]
    by (simp add: wants_duplicates_def)
qed

text \<open>
  Claim C10. The cleaned data returned by \<open>clean_dataset\<close> is a subsequence of the
  input: it is a subsequence \<open>kept\<close> of the input records, in their original order,
  each record whitespace-normalized when \<^verbatim>\<open>string_fields\<close> is configured and unchanged
  otherwise. No record is added or duplicated, so the output is no longer than the
  input.
\<close>

theorem clean_dataset_subsequence:
  "(\<exists>kept. subseq kept records \<and>
      cleaned_data (clean_dataset records config) = map (normalized config) kept) \<and>
   length (cleaned_data (clean_dataset records config)) \<le> length records \<and>
   (\<not> truthy (string_fields config) \<longrightarrow>
      subseq (cleaned_data (clean_dataset records config)) records)"
proof -
  let ?D = "deduplicated config records"
  let ?kept = "filter (criteria_ok config \<circ> normalized config) (filter (required_ok config) ?D)"
  have sub: "subseq ?kept records"
    using deduplicated_subseq [of config records]
    by (meson subseq_filter_left subseq_order.trans)
  have eq: "cleaned_data (clean_dataset records config) = map (normalized config) ?kept"
    by (simp add: clean_dataset_eq filter_map)
  have len: "length (cleaned_data (clean_dataset records config)) \<le> length records"
    using sub by (simp add: eq list_emb_length)
  have "map (normalized config) ?kept = ?kept" if "\<not> truthy (string_fields config)"
    using that by (intro map_idI) (simp add: normalized_off)
  then have "\<not> truthy (string_fields config) \<longrightarrow>
               subseq (cleaned_data (clean_dataset records config)) records"
    using sub eq by simp
  then show ?thesis using sub eq len by blast
qed

theorem clean_dataset_subsequence_witness:
  "subseq
     (cleaned_data
        (clean_dataset
           [[(''id'', PNum 1), (''name'', PStr ''Ann'')], [(''id'', PNum 1), (''name'', PStr ''Bob'')],
            [(''id'', PNum 2), (''name'', PStr [])], [(''id'', PNum 3), (''name'', PStr ''Cy'')]]
           \<lparr>remove_duplicates = Some True, duplicate_key = Some ''id'',
            required_fields = Some [''name''], string_fields = None, filters = None\<rparr>))
     [[(''id'', PNum 1), (''name'', PStr ''Ann'')], [(''id'', PNum 1), (''name'', PStr ''Bob'')],
      [(''id'', PNum 2), (''name'', PStr [])], [(''id'', PNum 3), (''name'', PStr ''Cy'')]] \<and>
   cleaned_data
     (clean_dataset
        [[(''id'', PNum 1), (''name'', PStr ''Ann'')], [(''id'', PNum 1), (''name'', PStr ''Bob'')],
         [(''id'', PNum 2), (''name'', PStr [])], [(''id'', PNum 3), (''name'', PStr ''Cy'')]]
        \<lparr>remove_duplicates = Some True, duplicate_key = Some ''id'',
         required_fields = Some [''name''], string_fields = None, filters = None\<rparr>)
     = [[(''id'', PNum 1), (''name'', PStr ''Ann'')], [(''id'', PNum 3), (''name'', PStr ''Cy'')]]"
proof -
  let ?rs = "[[(''id'', PNum 1), (''name'', PStr ''Ann'')], [(''id'', PNum 1), (''name'', PStr ''Bob'')],
        [(''id'', PNum 2), (''name'', PStr [])], [(''id'', PNum 3), (''name'', PStr ''Cy'')]]"
  let ?c = "\<lparr>remove_duplicates = Some True, duplicate_key = Some ''id'',
         required_fields = Some [''name''], string_fields = None, filters = None\<rparr>"
  have e: "cleaned_data (clean_dataset ?rs ?c)
             = [[(''id'', PNum 1), (''name'', PStr ''Ann'')], [(''id'', PNum 3), (''name'', PStr ''Cy'')]]"
    by (simp add: pipeline_defs)
  have "subseq (cleaned_data (clean_dataset ?rs ?c)) ?rs"
    using clean_dataset_subsequence [of ?rs ?c] by simp
  then show ?thesis using e by simp
qed

lemma dict_get_normalized:
  "key \<notin> rewritten_fields config \<Longrightarrow> dict_get (normalized config r) key = dict_get r key"
  by (simp add: dict_get_def map_of_normalized_other)

lemma required_ok_normalized:
  assumes "read_fields config \<inter> rewritten_fields config = {}"
  shows "required_ok config (normalized config r) = required_ok config r"
proof (cases "required_fields config")
  case None
  then show ?thesis by (simp add: required_ok_def)
next
  case (Some names)
  have "map_of (normalized config r) field = map_of r field" if "field \<in> set names" for field
  proof -
    have "field \<in> read_fields config" using that Some by (simp add: read_fields_def)
    then have "field \<notin> rewritten_fields config" using assms by blast
    then show ?thesis by (rule map_of_normalized_other)
  qed
  then show ?thesis using Some by (simp add: required_ok_def has_all_fields_iff)
qed

lemma deduplicated_fixed:
  assumes disj: "read_fields config \<inter> rewritten_fields config = {}"
  shows "deduplicated config
           (filter P (map (normalized config) (filter Q (deduplicated config rs))))
         = filter P (map (normalized config) (filter Q (deduplicated config rs)))"
proof (cases "wants_duplicates config")
  case False
  then show ?thesis by (simp add: deduplicated_off)
next
  case True
  then obtain key where key: "duplicate_key config = Some key"
    by (cases "duplicate_key config") (simp_all add: wants_duplicates_def)
  let ?g = "\<lambda>r. dict_get r key"
  have "key \<in> read_fields config" using True key by (simp add: read_fields_def)
  then have nk: "key \<notin> rewritten_fields config" using disj by blast
  have ded: "deduplicated config xs = remove_duplicate_dicts_loop {} [] xs key" for xs
    using True key by (simp add: deduplicated_def remove_duplicate_dicts_def)
  have "distinct (map ?g (deduplicated config rs))"
    by (simp only: ded remove_duplicate_dicts_loop_distinct)
  then have "distinct (map ?g (filter Q (deduplicated config rs)))"
    by (rule distinct_map_filter)
  moreover have "map ?g (map (normalized config) xs) = map ?g xs" for xs
    using nk by (simp add: dict_get_normalized)
  ultimately have "distinct (map ?g (map (normalized config) (filter Q (deduplicated config rs))))"
    by (simp only:)
  then have "distinct (map ?g (filter P (map (normalized config) (filter Q (deduplicated config rs)))))"
    by (rule distinct_map_filter)
  then show ?thesis
    by (simp only: ded [of "filter P (map (normalized config) (filter Q (deduplicated config rs)))"])
       (rule remove_duplicate_dicts_loop_id, simp_all)
qed

text \<open>
  Claim C2, amended. When none of the fields read by the first two stages (the duplicate
  key, the required fields) is among the string fields that the third stage
  normalizes, applying \<open>clean_dataset\<close> with the same configuration to the cleaned data
  of a first application removes nothing: the cleaned data is returned unchanged and
  every removed count, and \<open>total_removed\<close>, is 0.
\<close>

theorem clean_dataset_idempotent:
  assumes "read_fields config \<inter> rewritten_fields config = {}"
  shows "cleaned_data (clean_dataset (cleaned_data (clean_dataset records config)) config)
           = cleaned_data (clean_dataset records config) \<and>
         total_removed (clean_dataset (cleaned_data (clean_dataset records config)) config) = 0 \<and>
         removed_duplicates (clean_dataset (cleaned_data (clean_dataset records config)) config) = 0 \<and>
         removed_missing (clean_dataset (cleaned_data (clean_dataset records config)) config) = 0 \<and>
         removed_invalid (clean_dataset (cleaned_data (clean_dataset records config)) config) = 0"
proof -
  let ?Y = "filter (required_ok config) (deduplicated config records)"
  let ?X = "filter (criteria_ok config) (map (normalized config) ?Y)"
  have X: "cleaned_data (clean_dataset records config) = ?X"
    by (simp add: clean_dataset_eq)
  have a: "deduplicated config ?X = ?X"
    using assms by (rule deduplicated_fixed)
  have "required_ok config x" if "x \<in> set ?X" for x
  proof -
    from that obtain y where "y \<in> set ?Y" "x = normalized config y" by auto
    then show ?thesis using assms by (simp add: required_ok_normalized)
  qed
  then have b: "filter (required_ok config) ?X = ?X"
    by (simp only: filter_id_conv) blast
  have "normalized config x = x" if "x \<in> set ?X" for x
  proof -
    from that obtain y where "x = normalized config y" by auto
    then show ?thesis by (simp add: normalized_idem)
  qed
  then have c: "map (normalized config) ?X = ?X"
    by (intro map_idI)
  have d: "filter (criteria_ok config) ?X = ?X"
    by simp
  show ?thesis
    unfolding X by (simp only: clean_dataset_eq [of ?X config] a b c d) simp
qed

theorem clean_dataset_idempotent_witness:
  "cleaned_data
     (clean_dataset
        [[(''id'', PNum 1), (''name'', PStr ''  Alice  '')],
         [(''id'', PNum 1), (''name'', PStr ''Al'')],
         [(''id'', PNum 2)]]
        \<lparr>remove_duplicates = Some True, duplicate_key = Some ''id'',
         required_fields = Some [''id''], string_fields = Some [''name''],
         filters = Some [(''name'', PStr ''Alice'')]\<rparr>)
     = [[(''id'', PNum 1), (''name'', PStr ''Alice'')]] \<and>
   total_removed
     (clean_dataset
        (cleaned_data
           (clean_dataset
              [[(''id'', PNum 1), (''name'', PStr ''  Alice  '')],
               [(''id'', PNum 1), (''name'', PStr ''Al'')],
               [(''id'', PNum 2)]]
              \<lparr>remove_duplicates = Some True, duplicate_key = Some ''id'',
               required_fields = Some [''id''], string_fields = Some [''name''],
               filters = Some [(''name'', PStr ''Alice'')]\<rparr>))
        \<lparr>remove_duplicates = Some True, duplicate_key = Some ''id'',
         required_fields = Some [''id''], string_fields = Some [''name''],
         filters = Some [(''name'', PStr ''Alice'')]\<rparr>) = 0"
proof -
  let ?c = "\<lparr>remove_duplicates = Some True, duplicate_key = Some ''id'',
             required_fields = Some [''id''], string_fields = Some [''name''],
             filters = Some [(''name'', PStr ''Alice'')]\<rparr>"
  have h: "read_fields ?c \<inter> rewritten_fields ?c = {}"
    by (simp add: read_fields_def rewritten_fields_def wants_duplicates_def)
  have e: "cleaned_data
     (clean_dataset
        [[(''id'', PNum 1), (''name'', PStr ''  Alice  '')],
         [(''id'', PNum 1), (''name'', PStr ''Al'')],
         [(''id'', PNum 2)]] ?c)
     = [[(''id'', PNum 1), (''name'', PStr ''Alice'')]]"
    by (simp add: pipeline_defs)
  show ?thesis
    using e clean_dataset_idempotent [OF h,
      of "[[(''id'', PNum 1), (''name'', PStr ''  Alice  '')],
           [(''id'', PNum 1), (''name'', PStr ''Al'')],
           [(''id'', PNum 2)]]"]
    by simp
qed

text \<open>
  The claim as written holds for every configuration. The duplicate and required-field
  stages run before the whitespace normalization, so a second application can meet
  records that the first one made equal or empty. With \<open>name\<close> both the duplicate key
  and a string field, \<open>a\<close> and \<open>a \<close> survive the first application as two records
  named \<open>a\<close>, and the second application removes one. With \<open>name\<close> both required and a
  string field, a blank name passes the first application, is normalized to the empty
  string, and is removed by the second.
\<close>

theorem clean_dataset_idempotent_counterexample:
  "total_removed
     (clean_dataset
        (cleaned_data
           (clean_dataset [[(''name'', PStr ''a'')], [(''name'', PStr ''a '')]]
              \<lparr>remove_duplicates = Some True, duplicate_key = Some ''name'',
               required_fields = None, string_fields = Some [''name''], filters = None\<rparr>))
        \<lparr>remove_duplicates = Some True, duplicate_key = Some ''name'',
         required_fields = None, string_fields = Some [''name''], filters = None\<rparr>) = 1 \<and>
   total_removed
     (clean_dataset
        (cleaned_data
           (clean_dataset [[(''name'', PStr '' '')]]
              \<lparr>remove_duplicates = None, duplicate_key = None,
               required_fields = Some [''name''], string_fields = Some [''name''], filters = None\<rparr>))
        \<lparr>remove_duplicates = None, duplicate_key = None,
         required_fields = Some [''name''], string_fields = Some [''name''], filters = None\<rparr>) = 1"
  by (simp add: pipeline_defs)

end
